theory Spec2Isabelle
  imports Main "HOL-Library.Word"
begin

unbundle bit_operations_syntax

section \<open>Constants of main.go\<close>

definition letterBytes :: string where
  "letterBytes = ''0123456789abcdefghijklmnopqrstuvwxyzABCDEFGHIJKLMNOPQRSTUVWXYZ''"

definition defaultShortUrlLen :: int where
  "defaultShortUrlLen = 6"

definition minShortUrlLen :: int where
  "minShortUrlLen = 1"

definition maxShortUrlLen :: int where
  "maxShortUrlLen = 20"

definition defaultLockPrefix :: string where
  "defaultLockPrefix = ''myurls:lock:''"

definition defaultMd5Prefix :: string where
  "defaultMd5Prefix = ''myurls:md5:''"

definition defaultRenewalDay :: int where
  "defaultRenewalDay = 1"

definition secondsPerDay :: int where
  "secondsPerDay = 24 * 3600"

text \<open>
  Go's \<^verbatim>\<open>int\<close> is 64 bits wide on the platforms the service runs on; \<open>int64\<close> is the
  two's-complement wrap-around of an arithmetic result.
\<close>

definition int64 :: "int \<Rightarrow> int" where
  "int64 x = (x + 2 ^ 63) mod 2 ^ 64 - 2 ^ 63"

section \<open>The key-value store\<close>

text \<open>
  The Redis commands that main.go issues, on string values. An entry is the value with
  its remaining time to live in seconds; \<open>None\<close> is a key without expiration. Every
  command is taken to succeed (the code discards every command error), and the commands
  of one call run at one instant: time passes only through \<open>elapse\<close>.
\<close>

type_synonym entry = "string \<times> int option"
type_synonym store = "string \<rightharpoonup> entry"

text \<open>GET: the value, or the nil reply.\<close>

definition cmd_get :: "store \<Rightarrow> string \<Rightarrow> string option" where
  "cmd_get s k = map_option fst (s k)"

text \<open>\<^verbatim>\<open>redis.String\<close> with its error discarded: the nil reply reads as the empty string.\<close>

definition redis_String :: "string option \<Rightarrow> string" where
  "redis_String reply = (case reply of None \<Rightarrow> [] | Some v \<Rightarrow> v)"

text \<open>SET without options: the value is replaced and any expiration is discarded.\<close>

definition cmd_set :: "store \<Rightarrow> string \<Rightarrow> string \<Rightarrow> store" where
  "cmd_set s k v = s(k \<mapsto> (v, None))"

text \<open>MSET with two pairs: both are set, from left to right.\<close>

definition cmd_mset :: "store \<Rightarrow> string \<Rightarrow> string \<Rightarrow> string \<Rightarrow> string \<Rightarrow> store" where
  "cmd_mset s k1 v1 k2 v2 = cmd_set (cmd_set s k1 v1) k2 v2"

text \<open>
  EXPIRE: nothing happens on a missing key; a timeout that is not positive deletes the
  key; otherwise the remaining time to live is replaced.
\<close>

definition cmd_expire :: "store \<Rightarrow> string \<Rightarrow> int \<Rightarrow> store" where
  "cmd_expire s k t =
     (case s k of
        None \<Rightarrow> s
      | Some (v, _) \<Rightarrow> if t \<le> 0 then s(k := None) else s(k \<mapsto> (v, Some t)))"

text \<open>TTL: -2 for a missing key, -1 for a key without expiration, else the seconds left.\<close>

definition cmd_ttl :: "store \<Rightarrow> string \<Rightarrow> int" where
  "cmd_ttl s k =
     (case s k of
        None \<Rightarrow> - 2
      | Some (_, None) \<Rightarrow> - 1
      | Some (_, Some t) \<Rightarrow> t)"

text \<open>SETNX: sets the key and replies 1 when it is missing, replies 0 otherwise.\<close>

definition cmd_setnx :: "store \<Rightarrow> string \<Rightarrow> string \<Rightarrow> int \<times> store" where
  "cmd_setnx s k v =
     (case s k of
        None \<Rightarrow> (1, s(k \<mapsto> (v, None)))
      | Some _ \<Rightarrow> (0, s))"

text \<open>The store after \<open>d\<close> seconds: expirations count down and expired keys are gone.\<close>

definition elapse :: "int \<Rightarrow> store \<Rightarrow> store" where
  "elapse d s =
     (\<lambda>k. case s k of
        None \<Rightarrow> None
      | Some (v, None) \<Rightarrow> Some (v, None)
      | Some (v, Some t) \<Rightarrow> if t \<le> d then None else Some (v, Some (t - d)))"

section \<open>Library functions that main.go calls\<close>

subsection \<open>crypto/md5 and encoding/hex\<close>

text \<open>
  \<^verbatim>\<open>md5.Sum\<close> is the MD5 digest of RFC 1321: the message is padded to a multiple of 64 bytes,
  every block of sixteen little-endian words goes through 64 steps, and the four state
  words are written out little-endian. \<^verbatim>\<open>hex.EncodeToString\<close> writes two lower-case
  hexadecimal digits per byte.
\<close>

type_synonym byte = "8 word"
type_synonym u32 = "32 word"

definition md5_shifts :: "nat list" where
  "md5_shifts =
     [7, 12, 17, 22, 7, 12, 17, 22, 7, 12, 17, 22, 7, 12, 17, 22,
      5, 9, 14, 20, 5, 9, 14, 20, 5, 9, 14, 20, 5, 9, 14, 20,
      4, 11, 16, 23, 4, 11, 16, 23, 4, 11, 16, 23, 4, 11, 16, 23,
      6, 10, 15, 21, 6, 10, 15, 21, 6, 10, 15, 21, 6, 10, 15, 21]"

definition md5_table :: "u32 list" where
  "md5_table =
     [0xd76aa478, 0xe8c7b756, 0x242070db, 0xc1bdceee, 0xf57c0faf, 0x4787c62a, 0xa8304613, 0xfd469501,
      0x698098d8, 0x8b44f7af, 0xffff5bb1, 0x895cd7be, 0x6b901122, 0xfd987193, 0xa679438e, 0x49b40821,
      0xf61e2562, 0xc040b340, 0x265e5a51, 0xe9b6c7aa, 0xd62f105d, 0x02441453, 0xd8a1e681, 0xe7d3fbc8,
      0x21e1cde6, 0xc33707d6, 0xf4d50d87, 0x455a14ed, 0xa9e3e905, 0xfcefa3f8, 0x676f02d9, 0x8d2a4c8a,
      0xfffa3942, 0x8771f681, 0x6d9d6122, 0xfde5380c, 0xa4beea44, 0x4bdecfa9, 0xf6bb4b60, 0xbebfbc70,
      0x289b7ec6, 0xeaa127fa, 0xd4ef3085, 0x04881d05, 0xd9d4d039, 0xe6db99e5, 0x1fa27cf8, 0xc4ac5665,
      0xf4292244, 0x432aff97, 0xab9423a7, 0xfc93a039, 0x655b59c3, 0x8f0ccc92, 0xffeff47d, 0x85845dd1,
      0x6fa87e4f, 0xfe2ce6e0, 0xa3014314, 0x4e0811a1, 0xf7537e82, 0xbd3af235, 0x2ad7d2bb, 0xeb86d391]"

definition le_u32 :: "byte list \<Rightarrow> u32" where
  "le_u32 bs = foldr (\<lambda>b w. ucast b OR push_bit 8 w) (take 4 bs) 0"

definition u32_le :: "u32 \<Rightarrow> byte list" where
  "u32_le w = map (\<lambda>i. ucast (drop_bit (8 * i) w)) [0..<4]"

definition md5_pad :: "byte list \<Rightarrow> byte list" where
  "md5_pad m =
     m @ [0x80] @ replicate ((119 - length m mod 64) mod 64) 0
       @ map (\<lambda>i. ucast (drop_bit (8 * i) (push_bit 3 (of_nat (length m) :: 64 word)))) [0..<8]"

definition md5_step ::
  "u32 list \<Rightarrow> nat \<Rightarrow> u32 \<times> u32 \<times> u32 \<times> u32 \<Rightarrow> u32 \<times> u32 \<times> u32 \<times> u32" where
  "md5_step M i st =
     (case st of (a, b, c, d) \<Rightarrow>
        let f = (if i < 16 then (b AND c) OR (NOT b AND d)
                 else if i < 32 then (d AND b) OR (NOT d AND c)
                 else if i < 48 then b XOR c XOR d
                 else c XOR (b OR NOT d));
            g = (if i < 16 then i
                 else if i < 32 then (5 * i + 1) mod 16
                 else if i < 48 then (3 * i + 5) mod 16
                 else (7 * i) mod 16)
        in (d, b + word_rotl (md5_shifts ! i) (f + a + md5_table ! i + M ! g), b, c))"

definition md5_block ::
  "u32 \<times> u32 \<times> u32 \<times> u32 \<Rightarrow> byte list \<Rightarrow> u32 \<times> u32 \<times> u32 \<times> u32" where
  "md5_block st blk =
     (let M = map (\<lambda>j. le_u32 (drop (4 * j) blk)) [0..<16]
      in case (st, fold (md5_step M) [0..<64] st) of
           ((a0, b0, c0, d0), (a, b, c, d)) \<Rightarrow> (a0 + a, b0 + b, c0 + c, d0 + d))"

fun md5_blocks ::
  "nat \<Rightarrow> byte list \<Rightarrow> u32 \<times> u32 \<times> u32 \<times> u32 \<Rightarrow> u32 \<times> u32 \<times> u32 \<times> u32" where
  "md5_blocks 0 bs st = st"
| "md5_blocks (Suc n) bs st = md5_blocks n (drop 64 bs) (md5_block st (take 64 bs))"

definition md5_Sum :: "string \<Rightarrow> byte list" where
  "md5_Sum data =
     (let p = md5_pad (map of_char data)
      in case md5_blocks (length p div 64) p (0x67452301, 0xefcdab89, 0x98badcfe, 0x10325476) of
           (a, b, c, d) \<Rightarrow> u32_le a @ u32_le b @ u32_le c @ u32_le d)"

definition hextable :: string where
  "hextable = ''0123456789abcdef''"

definition hex_EncodeToString :: "byte list \<Rightarrow> string" where
  "hex_EncodeToString src =
     concat (map (\<lambda>v. [hextable ! unat (drop_bit 4 v), hextable ! unat (v AND 0x0f)]) src)"

subsection \<open>encoding/base64\<close>

text \<open>
  \<^verbatim>\<open>base64.StdEncoding.DecodeString\<close>: the standard alphabet with \<open>=\<close> padding. Line
  feeds and carriage returns are skipped. Four symbols give three bytes; two symbols and
  \<open>==\<close>, or three symbols and \<open>=\<close>, end the input with one or two bytes. On corrupt
  input the bytes of the quanta decoded so far are returned together with the error,
  which is the flag in the second component.
\<close>

definition encodeStd :: string where
  "encodeStd = ''ABCDEFGHIJKLMNOPQRSTUVWXYZabcdefghijklmnopqrstuvwxyz0123456789+/''"

fun index_of :: "'a list \<Rightarrow> 'a \<Rightarrow> nat option" where
  "index_of [] c = None"
| "index_of (x # xs) c = (if x = c then Some 0 else map_option Suc (index_of xs c))"

definition decodeMap :: "char \<Rightarrow> u32 option" where
  "decodeMap c = map_option of_nat (index_of encodeStd c)"

definition isNewline :: "char \<Rightarrow> bool" where
  "isNewline c = (c = CHR 0x0A \<or> c = CHR 0x0D)"

text \<open>The first \<open>dlen - 1\<close> bytes of the 24 bits that the collected sextets form.\<close>

definition quantum :: "u32 list \<Rightarrow> nat \<Rightarrow> string" where
  "quantum dbuf dlen =
     (let d = dbuf @ replicate 4 0;
          val = push_bit 18 (d ! 0) OR push_bit 12 (d ! 1) OR push_bit 6 (d ! 2) OR d ! 3
      in take (dlen - 1)
           (map (\<lambda>sh. char_of (unat (ucast (drop_bit sh val) :: byte))) [16, 8, 0]))"

fun decodeFrom :: "u32 list \<Rightarrow> string \<Rightarrow> string \<times> bool" where
  "decodeFrom dbuf [] = ([], dbuf \<noteq> [])"
| "decodeFrom dbuf (c # src) =
     (case decodeMap c of
        Some out \<Rightarrow>
          if length dbuf = 3 then
            (case decodeFrom [] src of (bs, err) \<Rightarrow> (quantum (dbuf @ [out]) 4 @ bs, err))
          else decodeFrom (dbuf @ [out]) src
      | None \<Rightarrow>
          if isNewline c then decodeFrom dbuf src
          else if c \<noteq> CHR ''='' then ([], True)
          else if length dbuf < 2 then ([], True)
          else if length dbuf = 2 then
            (case dropWhile isNewline src of
               [] \<Rightarrow> ([], True)
             | c' # src' \<Rightarrow>
                 if c' \<noteq> CHR ''='' then ([], True)
                 else (quantum dbuf 2, dropWhile isNewline src' \<noteq> []))
          else (quantum dbuf 3, dropWhile isNewline src \<noteq> []))"

definition DecodeString :: "string \<Rightarrow> string \<times> bool" where
  "DecodeString s = decodeFrom [] s"

subsection \<open>strconv\<close>

text \<open>
  \<^verbatim>\<open>strconv.Atoi\<close>: an optional sign and at least one decimal digit, nothing else; a
  number outside the 64-bit range is an error as well. \<open>None\<close> is the error.
\<close>

definition isDigit :: "char \<Rightarrow> bool" where
  "isDigit c = (c \<in> set ''0123456789'')"

definition digitsValue :: "string \<Rightarrow> int" where
  "digitsValue ds = foldl (\<lambda>a c. 10 * a + (of_char c - 48)) 0 ds"

definition Atoi :: "string \<Rightarrow> int option" where
  "Atoi s =
     (let neg = (s \<noteq> [] \<and> hd s = CHR ''-'');
          ds = (if s \<noteq> [] \<and> (hd s = CHR ''-'' \<or> hd s = CHR ''+'') then tl s else s)
      in if ds = [] \<or> \<not> list_all isDigit ds then None
         else let n = (if neg then - digitsValue ds else digitsValue ds)
              in if n < - (2 ^ 63) \<or> 2 ^ 63 - 1 < n then None else Some n)"

section \<open>The key generator\<close>

text \<open>
  \<^verbatim>\<open>generate\<close> allocates \<^verbatim>\<open>bits\<close> bytes, which panics for a negative length, builds a new
  random number generator seeded with the current time in nanoseconds, and draws one
  letter per byte. The generator of math/rand is a parameter \<open>rnd\<close>: for a seed and the
  number of a draw it gives the number drawn, so that a generator is a function of its
  seed alone; \<^verbatim>\<open>r.Intn(n)\<close> is a number below \<open>n\<close>. The reading of the clock is the
  argument \<open>now\<close>.
\<close>

datatype error = MakeSliceLenOutOfRange

type_synonym rand = "int \<Rightarrow> nat \<Rightarrow> nat"

definition Intn :: "rand \<Rightarrow> int \<Rightarrow> nat \<Rightarrow> nat \<Rightarrow> nat" where
  "Intn rnd seed i n = rnd seed i mod n"

definition generate :: "rand \<Rightarrow> int \<Rightarrow> int \<Rightarrow> error + string" where
  "generate rnd now bits =
     (if bits < 0 then Inl MakeSliceLenOutOfRange
      else Inr (map (\<lambda>i. letterBytes ! Intn rnd now i (length letterBytes)) [0..<nat bits]))"

section \<open>Long URL to short key\<close>

text \<open>
  The retry loop of \<^verbatim>\<open>longToShort\<close>: \<open>i\<close> is the loop counter, \<open>shortKey\<close> the variable
  the loop assigns, and \<open>clock i\<close> the time that the call of \<^verbatim>\<open>generate\<close> in iteration
  \<open>i\<close> reads.
\<close>

function retry ::
  "rand \<Rightarrow> (nat \<Rightarrow> int) \<Rightarrow> store \<Rightarrow> int \<Rightarrow> nat \<Rightarrow> string \<Rightarrow> error + string" where
  "retry rnd clock s shortUrlLen i shortKey =
     (if i < 3 then
        (case generate rnd (clock i) shortUrlLen of
           Inl e \<Rightarrow> Inl e
         | Inr k \<Rightarrow>
             if redis_String (cmd_get s k) = [] then Inr k
             else retry rnd clock s shortUrlLen (i + 1) k)
      else Inr shortKey)"
  by pat_completeness auto
termination
  by (relation "measure (\<lambda>(rnd, clock, s, shortUrlLen, i, shortKey). 3 - i)") auto

definition md5Key :: "string \<Rightarrow> string" where
  "md5Key longUrl = defaultMd5Prefix @ hex_EncodeToString (md5_Sum longUrl)"

definition longToShort ::
  "rand \<Rightarrow> (nat \<Rightarrow> int) \<Rightarrow> store \<Rightarrow> string \<Rightarrow> int \<Rightarrow> int \<Rightarrow> error + string \<times> store" where
  "longToShort rnd clock s longUrl ttl shortUrlLen =
     (let existsKey = redis_String (cmd_get s (md5Key longUrl))
      in if existsKey \<noteq> [] then Inr (existsKey, cmd_expire s existsKey ttl)
         else
           (case retry rnd clock s shortUrlLen 0 [] of
              Inl e \<Rightarrow> Inl e
            | Inr shortKey \<Rightarrow>
                if shortKey \<noteq> [] then
                  let s1 = cmd_mset s shortKey longUrl (md5Key longUrl) shortKey;
                      s2 = cmd_expire s1 shortKey ttl;
                      s3 = cmd_expire s2 (md5Key longUrl) secondsPerDay
                  in Inr (shortKey, s3)
                else Inr (shortKey, s)))"

section \<open>Short key to long URL, and renewal\<close>

definition renew :: "store \<Rightarrow> string \<Rightarrow> store" where
  "renew s shortKey =
     (let lockKey = defaultLockPrefix @ shortKey
      in case cmd_setnx s lockKey ''1'' of
           (lock, s1) \<Rightarrow>
             if lock = 1 then
               let s2 = cmd_expire s1 lockKey (defaultRenewalDay * secondsPerDay);
                   ttl = cmd_ttl s2 shortKey
               in if ttl \<noteq> - 1
                  then cmd_expire s2 shortKey (int64 (ttl + defaultRenewalDay * secondsPerDay))
                  else s2
             else s1)"

definition shortToLong :: "store \<Rightarrow> string \<Rightarrow> string \<times> store" where
  "shortToLong s shortKey =
     (let longUrl = redis_String (cmd_get s shortKey)
      in if longUrl \<noteq> [] then (longUrl, renew s shortKey) else (longUrl, s))"

section \<open>The request handlers\<close>

text \<open>
  The messages of a response, in the order of the handler: none; the long URL is empty;
  the length is not a number; the length is out of range; the short key exists already.
\<close>

datatype message =
  NoMessage | LongUrlEmpty | ShortUrlLenNotNumber | ShortUrlLenOutOfRange | ShortKeyExists

record Response =
  Code :: int
  Message :: message
  LongUrl :: string
  ShortUrl :: string

text \<open>The fields of the posted form, and the command-line flags that the handler reads.\<close>

record form =
  form_longUrl :: string
  form_shortKey :: string
  form_shortUrlLen :: string

record flags =
  flag_domain :: string
  flag_ttl :: int
  flag_https :: int

definition parseShortUrlLen :: "string \<Rightarrow> message + int" where
  "parseShortUrlLen shortUrlLenStr =
     (if shortUrlLenStr \<noteq> [] then
        (case Atoi shortUrlLenStr of
           None \<Rightarrow> Inl ShortUrlLenNotNumber
         | Some n \<Rightarrow>
             if minShortUrlLen \<le> n \<and> n \<le> maxShortUrlLen then Inr n
             else Inl ShortUrlLenOutOfRange)
      else Inr defaultShortUrlLen)"

definition shortUrlOf :: "flags \<Rightarrow> string \<Rightarrow> string" where
  "shortUrlOf fl shortKey =
     (if flag_https fl \<noteq> 0 then ''https://'' else ''http://'') @ flag_domain fl @ ''/'' @ shortKey"

text \<open>POST /short: the response and the store after the request, or the panic.\<close>

definition post_short ::
  "rand \<Rightarrow> (nat \<Rightarrow> int) \<Rightarrow> flags \<Rightarrow> store \<Rightarrow> form \<Rightarrow> error + Response \<times> store" where
  "post_short rnd clock fl s f =
     (let res = \<lparr>Code = 1, Message = NoMessage, LongUrl = [], ShortUrl = []\<rparr>
      in if form_longUrl f = [] then Inr (res\<lparr>Code := 0, Message := LongUrlEmpty\<rparr>, s)
         else
           (case parseShortUrlLen (form_shortUrlLen f) of
              Inl m \<Rightarrow> Inr (res\<lparr>Code := 0, Message := m\<rparr>, s)
            | Inr shortUrlLen \<Rightarrow>
                let longUrl = fst (DecodeString (form_longUrl f));
                    res1 = res\<lparr>LongUrl := longUrl\<rparr>
                in if form_shortKey f \<noteq> [] then
                     let exists = redis_String (cmd_get s (form_shortKey f))
                     in if exists \<noteq> [] \<and> exists \<noteq> longUrl
                        then Inr (res1\<lparr>Code := 0, Message := ShortKeyExists\<rparr>, s)
                        else Inr (res1\<lparr>ShortUrl := shortUrlOf fl (form_shortKey f)\<rparr>,
                                  cmd_set s (form_shortKey f) longUrl)
                   else
                     (case longToShort rnd clock s longUrl
                             (int64 (flag_ttl fl * secondsPerDay)) shortUrlLen of
                        Inl e \<Rightarrow> Inl e
                      | Inr (shortKey, s') \<Rightarrow>
                          Inr (res1\<lparr>ShortUrl := shortUrlOf fl shortKey\<rparr>, s'))))"

text \<open>GET /:shortKey: not found (404), or the redirection (301) to the long URL.\<close>

datatype reply = NotFound | Redirect string


section \<open>Scenarios\<close>

text \<open>
  Resolving a short key again and again: every element of the list is one request for
  the key followed by that many seconds without a request.
\<close>

fun resolves :: "store \<Rightarrow> string \<Rightarrow> int list \<Rightarrow> store" where
  "resolves s shortKey [] = s"
| "resolves s shortKey (d # ds) = resolves (elapse d (snd (shortToLong s shortKey))) shortKey ds"

text \<open>
  A session with the service: creations with a generated key (long URL, time to live in
  seconds, length of the key), requests for a short key, and pauses of some seconds. The
  result lists what the creations and the requests returned, in order, with the store at
  the end; a panic ends the session. \<open>c\<close> counts the readings of the clock.
\<close>

datatype request = Create string int int | Get string | Wait int

fun run :: "rand \<Rightarrow> (nat \<Rightarrow> int) \<Rightarrow> nat \<Rightarrow> store \<Rightarrow> request list \<Rightarrow> string list \<times> store" where
  "run rnd clock c s [] = ([], s)"
| "run rnd clock c s (Create longUrl ttl shortUrlLen # rs) =
     (case longToShort rnd (\<lambda>i. clock (c + i)) s longUrl ttl shortUrlLen of
        Inl e \<Rightarrow> ([], s)
      | Inr (shortKey, s') \<Rightarrow>
          (case run rnd clock (c + 3) s' rs of (out, s'') \<Rightarrow> (shortKey # out, s'')))"
| "run rnd clock c s (Get shortKey # rs) =
     (case shortToLong s shortKey of
        (longUrl, s') \<Rightarrow> (case run rnd clock c s' rs of (out, s'') \<Rightarrow> (longUrl # out, s'')))"
| "run rnd clock c s (Wait d # rs) = run rnd clock c (elapse d s) rs"

text \<open>
  Inputs of the examples: a generator, a clock that advances between two readings, a
  clock that is read three times within one nanosecond, and the flags of a server.
\<close>

definition sample_rand :: rand where
  "sample_rand seed i = nat (seed mod 62) + 7 * i"

definition sample_clock :: "nat \<Rightarrow> int" where
  "sample_clock i = 1000 + int i"


definition sample_flags :: flags where
  "sample_flags = \<lparr>flag_domain = ''s.example'', flag_ttl = 180, flag_https = 1\<rparr>"

section \<open>Basic facts\<close>

declare retry.simps [simp del]

text \<open>The library functions on known inputs: the test vectors of RFC 1321 and others.\<close>

lemma md5_examples:
  "hex_EncodeToString (md5_Sum []) = ''d41d8cd98f00b204e9800998ecf8427e''"
  "hex_EncodeToString (md5_Sum ''abc'') = ''900150983cd24fb0d6963f7d28e17f72''"
  "hex_EncodeToString (md5_Sum ''message digest'') = ''f96b697d7cb7938d525a2f31aaf161d0''"
  by code_simp+

lemma DecodeString_examples:
  "DecodeString ''aHR0cDovL3g='' = (''http://x'', False)"
  "DecodeString ''aGk='' = (''hi'', False)"
  "DecodeString ''aA=='' = (''h'', False)"
  "DecodeString ''aHR0cDovL3g'' = (''http:/'', True)"
  "DecodeString ''aGk=x'' = (''hi'', True)"
  "DecodeString ''!'' = ([], True)"
  by code_simp+

lemma Atoi_examples:
  "Atoi ''12'' = Some 12"
  "Atoi ''-3'' = Some (- 3)"
  "Atoi ''+7'' = Some 7"
  "Atoi [] = None"
  "Atoi ''-'' = None"
  "Atoi ''1a'' = None"
  "Atoi ''9223372036854775807'' = Some 9223372036854775807"
  "Atoi ''9223372036854775808'' = None"
  by code_simp+

lemma length_letterBytes: "length letterBytes = 62"
  by (simp add: letterBytes_def)

lemma colon_not_letter: "CHR '':'' \<notin> set letterBytes"
  by (simp add: letterBytes_def)

lemma generate_Inr: "0 \<le> bits \<Longrightarrow> \<exists>k. generate rnd now bits = Inr k"
  by (simp add: generate_def)

lemma generate_length: "generate rnd now bits = Inr k \<Longrightarrow> length k = nat bits"
  by (auto simp: generate_def split: if_splits)

lemma generate_letters: "generate rnd now bits = Inr k \<Longrightarrow> set k \<subseteq> set letterBytes"
  by (auto simp: generate_def Intn_def length_letterBytes split: if_splits)

lemma colon_in_md5Key: "CHR '':'' \<in> set (md5Key u)"
  by (simp add: md5Key_def defaultMd5Prefix_def)

lemma letters_not_md5Key: "set k \<subseteq> set letterBytes \<Longrightarrow> k \<noteq> md5Key u"
  using colon_in_md5Key colon_not_letter by auto

lemma lockKey_neq: "defaultLockPrefix @ k \<noteq> k"
  by (simp add: defaultLockPrefix_def)


text \<open>The retry loop, unrolled: it looks at three candidates at most.\<close>

lemma retry_unfold3:
  assumes "generate rnd (clock 0) n = Inr c0"
    and "generate rnd (clock 1) n = Inr c1"
    and "generate rnd (clock 2) n = Inr c2"
  shows "retry rnd clock s n 0 k0 =
           Inr (if redis_String (cmd_get s c0) = [] then c0
                else if redis_String (cmd_get s c1) = [] then c1 else c2)"
proof -
  have r3: "retry rnd clock s n 3 c2 = Inr c2"
    by (simp add: retry.simps)
  have r2: "retry rnd clock s n 2 c1 = Inr c2"
    using assms(3) r3 by (subst retry.simps) simp
  have r1: "retry rnd clock s n 1 c0 =
              Inr (if redis_String (cmd_get s c1) = [] then c1 else c2)"
    using assms(2) r2 by (subst retry.simps) (simp add: numeral_2_eq_2)
  show ?thesis
    using assms(1) r1 by (subst retry.simps) simp
qed

lemma retry_result:
  assumes "0 \<le> n"
  shows "\<exists>k. retry rnd clock s n 0 k0 = Inr k \<and> length k = nat n \<and> set k \<subseteq> set letterBytes"
proof -
  obtain c0 c1 c2 where c: "generate rnd (clock 0) n = Inr c0"
    "generate rnd (clock 1) n = Inr c1" "generate rnd (clock 2) n = Inr c2"
    using generate_Inr [OF assms] by meson
  show ?thesis
    using retry_unfold3 [OF c] c generate_length generate_letters by auto
qed

lemma longToShort_hit:
  assumes "s (md5Key u) = Some (k, e)" and "k \<noteq> []"
  shows "longToShort rnd clock s u ttl n = Inr (k, cmd_expire s k ttl)"
  using assms by (simp add: longToShort_def cmd_get_def redis_String_def)

lemma longToShort_miss:
  assumes "redis_String (cmd_get s (md5Key u)) = []"
    and "retry rnd clock s n 0 [] = Inr k"
    and "k \<noteq> []" and "k \<noteq> md5Key u" and "0 < ttl"
  shows "\<exists>s'. longToShort rnd clock s u ttl n = Inr (k, s') \<and>
           s' k = Some (u, Some ttl) \<and>
           s' (md5Key u) = Some (k, Some secondsPerDay) \<and>
           (\<forall>x. x \<noteq> k \<longrightarrow> x \<noteq> md5Key u \<longrightarrow> s' x = s x)"
  using assms
  by (simp add: longToShort_def Let_def cmd_mset_def cmd_set_def cmd_expire_def secondsPerDay_def)




text \<open>64-bit arithmetic, the lock of a renewal, and repeated requests for one key.\<close>

lemma int64_id: "- (2 ^ 63) \<le> x \<Longrightarrow> x < 2 ^ 63 \<Longrightarrow> int64 x = x"
  by (simp add: int64_def)

lemma renew_locked: "s (defaultLockPrefix @ k) \<noteq> None \<Longrightarrow> renew s k = s"
  by (auto simp: renew_def cmd_setnx_def)

lemma renew_acquire_expiring:
  assumes "s (defaultLockPrefix @ k) = None" and "s k = Some (u, Some t)"
    and "0 < t" and "t + secondsPerDay < 2 ^ 63"
  shows "renew s k =
           s(defaultLockPrefix @ k \<mapsto> (''1'', Some secondsPerDay),
             k \<mapsto> (u, Some (t + secondsPerDay)))"
proof -
  have "int64 (t + secondsPerDay) = t + secondsPerDay"
    using assms(3,4) by (intro int64_id) (simp_all add: secondsPerDay_def)
  then show ?thesis
    using assms lockKey_neq [of k]
    by (simp add: renew_def cmd_setnx_def cmd_expire_def cmd_ttl_def defaultRenewalDay_def
        Let_def) (simp add: secondsPerDay_def)
qed

lemma renew_acquire_persistent:
  assumes "s (defaultLockPrefix @ k) = None" and "s k = Some (u, None)"
  shows "renew s k = s(defaultLockPrefix @ k \<mapsto> (''1'', Some secondsPerDay))"
  using assms lockKey_neq [of k]
  by (simp add: renew_def cmd_setnx_def cmd_expire_def cmd_ttl_def defaultRenewalDay_def
      Let_def) (simp add: secondsPerDay_def)

lemma shortToLong_locked:
  "s (defaultLockPrefix @ k) \<noteq> None \<Longrightarrow> snd (shortToLong s k) = s"
  by (simp add: shortToLong_def Let_def renew_locked)

lemma shortToLong_missing: "s k = None \<Longrightarrow> snd (shortToLong s k) = s"
  by (simp add: shortToLong_def Let_def cmd_get_def redis_String_def)

lemma resolves_missing: "s k = None \<Longrightarrow> resolves s k ds k = None"
proof (induction ds arbitrary: s)
  case Nil
  then show ?case by simp
next
  case (Cons d ds)
  have "elapse d s k = None" using Cons.prems by (simp add: elapse_def)
  then show ?case using Cons by (simp add: shortToLong_missing)
qed

text \<open>While the lock lives, resolving changes nothing but the time.\<close>

lemma resolves_locked:
  assumes "s (defaultLockPrefix @ k) = Some (lv, le)"
    and "le = None \<or> (\<exists>L. le = Some L \<and> sum_list ds < L)"
    and "\<forall>d\<in>set ds. 0 \<le> d"
    and "s k = Some (u, Some t)" and "sum_list ds < t"
  shows "resolves s k ds k = Some (u, Some (t - sum_list ds))"
  using assms
proof (induction ds arbitrary: s le t)
  case Nil
  then show ?case by simp
next
  case (Cons d ds)
  let ?s = "elapse d s"
  have d: "0 \<le> d" and ds: "\<forall>x\<in>set ds. 0 \<le> x" using Cons.prems(3) by auto
  then have sum: "0 \<le> sum_list ds" by (simp add: sum_list_nonneg)
  have st: "snd (shortToLong s k) = s"
    using Cons.prems(1) by (simp add: shortToLong_locked)
  have lock: "?s (defaultLockPrefix @ k) = Some (lv, map_option (\<lambda>L. L - d) le)"
    using Cons.prems(1,2) sum by (auto simp: elapse_def)
  have le': "map_option (\<lambda>L. L - d) le = None \<or>
      (\<exists>L. map_option (\<lambda>L. L - d) le = Some L \<and> sum_list ds < L)"
    using Cons.prems(2) by auto
  have rec: "?s k = Some (u, Some (t - d))"
    using Cons.prems(4,5) sum by (auto simp: elapse_def)
  have "sum_list ds < t - d" using Cons.prems(5) by simp
  from Cons.IH [OF lock le' ds rec this] st
  show ?case by (simp add: algebra_simps)
qed


text \<open>Within less than a day, resolving renews at most once.\<close>

lemma resolves_bound:
  assumes "s k = Some (u, Some t)" and "0 < t" and "t + secondsPerDay < 2 ^ 63"
    and "\<forall>d\<in>set ds. 0 \<le> d" and "sum_list ds < secondsPerDay"
  shows "resolves s k ds k = None \<or>
         (\<exists>t'. resolves s k ds k = Some (u, Some t') \<and> t' \<le> t + secondsPerDay - sum_list ds)"
  using assms
proof (induction ds arbitrary: s t)
  case Nil
  then show ?case by (simp add: secondsPerDay_def)
next
  case (Cons d ds)
  have d: "0 \<le> d" and ds: "\<forall>x\<in>set ds. 0 \<le> x" using Cons.prems(4) by auto
  then have sum: "0 \<le> sum_list ds" by (simp add: sum_list_nonneg)
  have dday: "d + sum_list ds < secondsPerDay" using Cons.prems(5) by simp
  show ?case
  proof (cases "s (defaultLockPrefix @ k) = None \<and> u \<noteq> []")
    case True
    let ?s = "elapse d (snd (shortToLong s k))"
    have st: "snd (shortToLong s k) =
        s(defaultLockPrefix @ k \<mapsto> (''1'', Some secondsPerDay),
          k \<mapsto> (u, Some (t + secondsPerDay)))"
      using True Cons.prems(1) renew_acquire_expiring [where s = s and k = k, OF _ Cons.prems(1,2,3)]
      by (simp add: shortToLong_def Let_def cmd_get_def redis_String_def)
    have lock: "?s (defaultLockPrefix @ k) = Some (''1'', Some (secondsPerDay - d))"
      using lockKey_neq [of k] dday sum by (simp add: st elapse_def)
    have rec: "?s k = Some (u, Some (t + secondsPerDay - d))"
      using dday sum Cons.prems(2) by (simp add: st elapse_def)
    have "resolves ?s k ds k = Some (u, Some (t + secondsPerDay - d - sum_list ds))"
      using dday sum Cons.prems(2)
      by (intro resolves_locked [OF lock _ ds rec]) auto
    then show ?thesis by simp
  next
    case False
    have st: "snd (shortToLong s k) = s"
    proof (cases "u = []")
      case True
      then show ?thesis
        using Cons.prems(1) by (simp add: shortToLong_def Let_def cmd_get_def redis_String_def)
    next
      case False
      with \<open>\<not> (s (defaultLockPrefix @ k) = None \<and> u \<noteq> [])\<close>
      show ?thesis by (simp add: shortToLong_locked)
    qed
    show ?thesis
    proof (cases "t \<le> d")
      case True
      then have "elapse d s k = None" using Cons.prems(1) by (simp add: elapse_def)
      then show ?thesis by (simp add: st resolves_missing)
    next
      case False
      then have rec: "elapse d s k = Some (u, Some (t - d))"
        using Cons.prems(1) by (simp add: elapse_def)
      have "resolves (elapse d s) k ds k = None \<or>
            (\<exists>t'. resolves (elapse d s) k ds k = Some (u, Some t') \<and>
                  t' \<le> t - d + secondsPerDay - sum_list ds)"
        using False d Cons.prems(3) dday sum
        by (intro Cons.IH [where s = "elapse d s" and t = "t - d", OF rec _ _ ds]) auto
      then show ?thesis by (auto simp: st algebra_simps)
    qed
  qed
qed

text \<open>The examples: what the sample generator generates.\<close>

lemma sample_generate:
  "generate sample_rand (sample_clock 0) 6 = Inr ''8fmtAH''"
  "generate sample_rand (sample_clock 1) 6 = Inr ''9gnuBI''"
  "generate sample_rand (sample_clock 2) 6 = Inr ''ahovCJ''"
  by (simp_all add: generate_def sample_rand_def sample_clock_def Intn_def letterBytes_def upt_rec)

lemma sample_create:
  "\<exists>s'. longToShort sample_rand sample_clock Map.empty u ttl 6 = Inr (''8fmtAH'', s') \<and>
        (0 < ttl \<longrightarrow> s' = [''8fmtAH'' \<mapsto> (u, Some ttl), md5Key u \<mapsto> (''8fmtAH'', Some secondsPerDay)])"
proof -
  have "retry sample_rand sample_clock Map.empty 6 0 [] = Inr ''8fmtAH''"
    using retry_unfold3 [OF sample_generate, of Map.empty "[]"]
    by (simp add: cmd_get_def redis_String_def)
  then show ?thesis
    by (auto simp: longToShort_def cmd_get_def redis_String_def cmd_mset_def cmd_set_def
        cmd_expire_def md5Key_def defaultMd5Prefix_def secondsPerDay_def Let_def)
qed


section \<open>Creation with an explicit short key\<close>

text \<open>
  Claim C1. A request that passes the checks of the long URL and of the length, with a
  non-empty explicit short key: if the key holds a non-empty value that differs from the
  decoded long URL, the request fails with the message that the short key exists and the
  store is unchanged. Otherwise the key is set to the long URL without expiration, no
  other key of the store changes (so nothing is written to the dedup index), and the
  response carries the short URL of the explicit key.
\<close>

theorem explicit_key_create:
  assumes "form_longUrl f \<noteq> []"
    and "parseShortUrlLen (form_shortUrlLen f) = Inr n"
    and "form_shortKey f \<noteq> []"
  shows "\<exists>res s'.
           post_short rnd clock fl s f = Inr (res, s') \<and>
           LongUrl res = fst (DecodeString (form_longUrl f)) \<and>
           (if redis_String (cmd_get s (form_shortKey f)) \<noteq> [] \<and>
               redis_String (cmd_get s (form_shortKey f)) \<noteq> fst (DecodeString (form_longUrl f))
            then Code res = 0 \<and> Message res = ShortKeyExists \<and> ShortUrl res = [] \<and> s' = s
            else Code res = 1 \<and> Message res = NoMessage \<and>
                 ShortUrl res = shortUrlOf fl (form_shortKey f) \<and>
                 s' (form_shortKey f) = Some (fst (DecodeString (form_longUrl f)), None) \<and>
                 (\<forall>k. k \<noteq> form_shortKey f \<longrightarrow> s' k = s k))"
  using assms by (simp add: post_short_def Let_def cmd_set_def)

theorem explicit_key_create_witness:
  "post_short sample_rand sample_clock sample_flags
     [''abc'' \<mapsto> (''http://x'', Some 500)]
     \<lparr>form_longUrl = ''aHR0cDovL3g='', form_shortKey = ''abc'', form_shortUrlLen = ''8''\<rparr>
   = Inr (\<lparr>Code = 1, Message = NoMessage, LongUrl = ''http://x'',
            ShortUrl = ''https://s.example/abc''\<rparr>,
          [''abc'' \<mapsto> (''http://x'', None)])"
proof -
  let ?f = "\<lparr>form_longUrl = ''aHR0cDovL3g='', form_shortKey = ''abc'', form_shortUrlLen = ''8''\<rparr>"
  let ?s = "[''abc'' \<mapsto> (''http://x'', Some 500)] :: store"
  have d: "DecodeString ''aHR0cDovL3g='' = (''http://x'', False)"
    by code_simp
  have p: "parseShortUrlLen (form_shortUrlLen ?f) = Inr 8"
    by code_simp
  obtain res s' where r: "post_short sample_rand sample_clock sample_flags ?s ?f = Inr (res, s')"
    and l: "LongUrl res = ''http://x''"
    and c: "Code res = 1" "Message res = NoMessage" "ShortUrl res = shortUrlOf sample_flags ''abc''"
    and k: "s' ''abc'' = Some (''http://x'', None)"
    and o: "\<forall>k. k \<noteq> ''abc'' \<longrightarrow> s' k = ?s k"
    using explicit_key_create [of ?f 8 sample_rand sample_clock sample_flags ?s] p
    by (auto simp: d cmd_get_def redis_String_def)
  have "s' = [''abc'' \<mapsto> (''http://x'', None)]"
    using k o by (intro ext) simp
  moreover have "res = \<lparr>Code = 1, Message = NoMessage, LongUrl = ''http://x'',
            ShortUrl = ''https://s.example/abc''\<rparr>"
    using l c by (cases res) (simp add: shortUrlOf_def sample_flags_def)
  ultimately show ?thesis using r by simp
qed

section \<open>Creation with a generated key\<close>

text \<open>
  Claim C2, as the code has it. For a non-empty long URL, a positive time to live and a
  length of at least one: when the dedup index has no entry for the long URL, or its
  entry names a short key that holds the long URL at this moment, resolving the short
  key that the creation returns gives back the long URL that was submitted.
\<close>

theorem create_then_resolve:
  assumes "u \<noteq> []" and "0 < ttl" and "1 \<le> n"
    and "redis_String (cmd_get s (md5Key u)) = [] \<or>
         redis_String (cmd_get s (redis_String (cmd_get s (md5Key u)))) = u"
  shows "\<exists>k s'. longToShort rnd clock s u ttl n = Inr (k, s') \<and> fst (shortToLong s' k) = u"
proof (cases "redis_String (cmd_get s (md5Key u)) = []")
  case True
  obtain k where r: "retry rnd clock s n 0 [] = Inr k" and len: "length k = nat n"
    and letters: "set k \<subseteq> set letterBytes"
    using retry_result [of n] assms(3) by fastforce
  have "k \<noteq> []" using len assms(3) by auto
  from longToShort_miss [OF True r this letters_not_md5Key [OF letters] assms(2)]
  obtain s' where "longToShort rnd clock s u ttl n = Inr (k, s')" "s' k = Some (u, Some ttl)"
    by blast
  then show ?thesis
    using assms(1) by (auto simp: shortToLong_def cmd_get_def redis_String_def Let_def)
next
  case False
  then obtain k e where h: "s (md5Key u) = Some (k, e)" "k \<noteq> []"
    by (auto simp: cmd_get_def redis_String_def split: option.splits)
  then have "redis_String (cmd_get s k) = u"
    using assms(4) False by (simp add: cmd_get_def redis_String_def)
  then have "redis_String (cmd_get (cmd_expire s k ttl) k) = u"
    using assms(1,2) by (auto simp: cmd_get_def redis_String_def cmd_expire_def split: option.splits)
  then show ?thesis
    using longToShort_hit [where s = s and u = u, OF h] assms(1) by (simp add: shortToLong_def Let_def)
qed

theorem create_then_resolve_witness:
  "\<exists>k s'. longToShort sample_rand sample_clock Map.empty ''http://x'' 10 6 = Inr (k, s') \<and>
          fst (shortToLong s' k) = ''http://x''"
  using create_then_resolve [of "''http://x''" 10 6 Map.empty sample_rand sample_clock]
  by (simp add: cmd_get_def redis_String_def)

text \<open>
  Claim C2 as stated fails when the index entry outlives the record it names. A long URL
  is shortened with ten seconds to live; after eleven seconds the record is gone and the
  index entry, which lives a day, is not. The next creation for the same long URL hits
  the index and returns the old key, and resolving that key at once finds nothing.
\<close>

theorem create_then_resolve_counterexample:
  "fst (run sample_rand sample_clock 0 Map.empty
     [Create ''http://x'' 10 6, Wait 11, Create ''http://x'' 10 6, Get ''8fmtAH''])
   = [''8fmtAH'', ''8fmtAH'', []]"
proof -
  have r: "retry sample_rand sample_clock Map.empty 6 0 [] = Inr ''8fmtAH''"
    using retry_unfold3 [OF sample_generate, of Map.empty "[]"]
    by (simp add: cmd_get_def redis_String_def)
  show ?thesis
    by (simp add: longToShort_def r cmd_get_def redis_String_def cmd_mset_def cmd_set_def
        cmd_expire_def md5Key_def defaultMd5Prefix_def secondsPerDay_def elapse_def
        shortToLong_def Let_def)
qed






text \<open>
  Claim C5. On a miss of the dedup index, with a length of one or more and a positive
  time to live: the loop draws at most three candidates, each of the requested length,
  and takes the first one whose key holds no value; when the first two collide it takes
  the third without looking at the outcome of its lookup. The creation does not fail:
  the chosen key is set to the long URL, whatever it held before, with the requested
  time to live, and the index entry names it for a day.
\<close>

theorem generation_loop:
  assumes "redis_String (cmd_get s (md5Key u)) = []"
    and "1 \<le> n" and "0 < ttl"
    and "generate rnd (clock 0) n = Inr c0"
    and "generate rnd (clock 1) n = Inr c1"
    and "generate rnd (clock 2) n = Inr c2"
  shows "let key = (if redis_String (cmd_get s c0) = [] then c0
                    else if redis_String (cmd_get s c1) = [] then c1 else c2)
         in \<exists>s'. longToShort rnd clock s u ttl n = Inr (key, s') \<and>
                  length key = nat n \<and>
                  s' key = Some (u, Some ttl) \<and>
                  s' (md5Key u) = Some (key, Some secondsPerDay)"
proof -
  define key where "key = (if redis_String (cmd_get s c0) = [] then c0
                    else if redis_String (cmd_get s c1) = [] then c1 else c2)"
  have r: "retry rnd clock s n 0 [] = Inr key"
    unfolding key_def by (rule retry_unfold3 [OF assms(4-6)])
  have len: "length key = nat n" and letters: "set key \<subseteq> set letterBytes"
    using assms(4-6) generate_length generate_letters by (auto simp: key_def)
  have "key \<noteq> []" using len assms(2) by auto
  from longToShort_miss [OF assms(1) r this letters_not_md5Key [OF letters] assms(3)] len
  show ?thesis unfolding key_def [symmetric] by (auto simp: Let_def)
qed

theorem generation_loop_witness:
  "\<exists>s'. longToShort sample_rand sample_clock [''8fmtAH'' \<mapsto> (''http://old'', None)]
           ''http://x'' 10 6 = Inr (''9gnuBI'', s') \<and>
        s' ''9gnuBI'' = Some (''http://x'', Some 10) \<and>
        s' ''8fmtAH'' = Some (''http://old'', None)"
proof -
  let ?s = "[''8fmtAH'' \<mapsto> (''http://old'', None)] :: store"
  have miss: "redis_String (cmd_get ?s (md5Key ''http://x'')) = []"
    by (simp add: cmd_get_def redis_String_def md5Key_def defaultMd5Prefix_def)
  from generation_loop [OF miss _ _ sample_generate, of 10]
  obtain s' where c: "longToShort sample_rand sample_clock ?s ''http://x'' 10 6 = Inr (''9gnuBI'', s')"
    and k: "s' ''9gnuBI'' = Some (''http://x'', Some 10)"
    by (auto simp: cmd_get_def redis_String_def Let_def)
  have "s' ''8fmtAH'' = Some (''http://old'', None)"
    using c miss retry_unfold3 [OF sample_generate, of ?s "[]"]
    by (auto simp: longToShort_def Let_def cmd_get_def redis_String_def cmd_mset_def cmd_set_def
        cmd_expire_def md5Key_def defaultMd5Prefix_def secondsPerDay_def)
  then show ?thesis using c k by blast
qed

section \<open>Renewal\<close>

text \<open>
  Claim C6. For a short key whose record holds a non-empty long URL: a request that
  finds no lock sets the lock with a day to live, changes no key besides the lock and
  the record, leaves a record without expiration as it is, and gives a record with \<open>t\<close>
  seconds left exactly \<open>t\<close> plus one day (for \<open>t\<close> in the range of the 64-bit
  addition). A request that finds the lock changes nothing. Hence, over any requests and
  pauses that take less than a day together, the record never has more than its
  original time to live plus one day.
\<close>

theorem renewal_once_per_window:
  assumes "s k = Some (u, e)" and "u \<noteq> []"
  shows "(s (defaultLockPrefix @ k) = None \<longrightarrow>
            (\<exists>s'. shortToLong s k = (u, s') \<and>
                   s' (defaultLockPrefix @ k) = Some (''1'', Some secondsPerDay) \<and>
                   (\<forall>x. x \<noteq> k \<longrightarrow> x \<noteq> defaultLockPrefix @ k \<longrightarrow> s' x = s x) \<and>
                   (e = None \<longrightarrow> s' k = Some (u, None)) \<and>
                   (\<forall>t. e = Some t \<longrightarrow> 0 < t \<longrightarrow> t + secondsPerDay < 2 ^ 63 \<longrightarrow>
                        s' k = Some (u, Some (t + secondsPerDay))))) \<and>
         (s (defaultLockPrefix @ k) \<noteq> None \<longrightarrow> shortToLong s k = (u, s)) \<and>
         (\<forall>t ds. e = Some t \<longrightarrow> 0 < t \<longrightarrow> t + secondsPerDay < 2 ^ 63 \<longrightarrow>
                 (\<forall>d\<in>set ds. 0 \<le> d) \<longrightarrow> sum_list ds < secondsPerDay \<longrightarrow>
                 resolves s k ds k = None \<or>
                 (\<exists>t'. resolves s k ds k = Some (u, Some t') \<and> t' \<le> t + secondsPerDay))"
proof (intro conjI impI allI)
  assume lock: "s (defaultLockPrefix @ k) = None"
  have r: "shortToLong s k = (u, renew s k)"
    using assms by (simp add: shortToLong_def Let_def cmd_get_def redis_String_def)
  show "\<exists>s'. shortToLong s k = (u, s') \<and>
                   s' (defaultLockPrefix @ k) = Some (''1'', Some secondsPerDay) \<and>
                   (\<forall>x. x \<noteq> k \<longrightarrow> x \<noteq> defaultLockPrefix @ k \<longrightarrow> s' x = s x) \<and>
                   (e = None \<longrightarrow> s' k = Some (u, None)) \<and>
                   (\<forall>t. e = Some t \<longrightarrow> 0 < t \<longrightarrow> t + secondsPerDay < 2 ^ 63 \<longrightarrow>
                        s' k = Some (u, Some (t + secondsPerDay)))"
  proof (cases e)
    case None
    then show ?thesis
      using r renew_acquire_persistent [where s = s and k = k and u = u, OF lock] assms(1) lockKey_neq [of k] by auto
  next
    case (Some t)
    have "renew s k (defaultLockPrefix @ k) = Some (''1'', Some secondsPerDay) \<and>
          (\<forall>x. x \<noteq> k \<longrightarrow> x \<noteq> defaultLockPrefix @ k \<longrightarrow> renew s k x = s x)"
      using lock assms(1) Some lockKey_neq [of k]
      by (auto simp: renew_def cmd_setnx_def cmd_expire_def cmd_ttl_def defaultRenewalDay_def
        Let_def secondsPerDay_def)
    moreover have "0 < t \<longrightarrow> t + secondsPerDay < 2 ^ 63 \<longrightarrow>
          renew s k k = Some (u, Some (t + secondsPerDay))"
      using renew_acquire_expiring [where s = s and k = k and u = u and t = t, OF lock] assms(1) Some by auto
    ultimately show ?thesis using r Some by auto
  qed
next
  assume "s (defaultLockPrefix @ k) \<noteq> None"
  then show "shortToLong s k = (u, s)"
    using assms by (simp add: shortToLong_def Let_def cmd_get_def redis_String_def renew_locked)
next
  fix t ds
  assume "e = Some t" "0 < t" "t + secondsPerDay < 2 ^ 63" "\<forall>d\<in>set ds. 0 \<le> d"
    "sum_list ds < secondsPerDay"
  moreover have "0 \<le> sum_list ds" using calculation(4) by (simp add: sum_list_nonneg)
  ultimately show "resolves s k ds k = None \<or>
                 (\<exists>t'. resolves s k ds k = Some (u, Some t') \<and> t' \<le> t + secondsPerDay)"
    using resolves_bound [of s k u t ds] assms(1) by fastforce
qed

theorem renewal_once_per_window_witness:
  "fst (shortToLong [''abc'' \<mapsto> (''http://x'', Some 10)] ''abc'') = ''http://x'' \<and>
   snd (shortToLong [''abc'' \<mapsto> (''http://x'', Some 10)] ''abc'') ''abc''
     = Some (''http://x'', Some 86410) \<and>
   snd (shortToLong [''abc'' \<mapsto> (''http://x'', Some 10)] ''abc'') (defaultLockPrefix @ ''abc'')
     = Some (''1'', Some 86400) \<and>
   resolves [''abc'' \<mapsto> (''http://x'', Some 10)] ''abc'' [1, 2, 3] ''abc''
     = Some (''http://x'', Some 86404)"
proof -
  let ?s = "[''abc'' \<mapsto> (''http://x'', Some 10)] :: store"
  have lock: "?s (defaultLockPrefix @ ''abc'') = None"
    by (simp add: defaultLockPrefix_def)
  have res: "resolves ?s ''abc'' [1, 2, 3] ''abc'' = Some (''http://x'', Some 86404)"
    by (simp add: shortToLong_def renew_def cmd_get_def redis_String_def cmd_setnx_def
        cmd_expire_def cmd_ttl_def elapse_def defaultLockPrefix_def defaultRenewalDay_def
        secondsPerDay_def int64_def Let_def)
  from renewal_once_per_window [of ?s "''abc''" "''http://x''" "Some 10"] lock
  obtain s' where "shortToLong ?s ''abc'' = (''http://x'', s')"
    "s' (defaultLockPrefix @ ''abc'') = Some (''1'', Some secondsPerDay)"
    "s' ''abc'' = Some (''http://x'', Some (10 + secondsPerDay))"
    by (auto simp: secondsPerDay_def)
  then show ?thesis
    using res by (simp add: secondsPerDay_def)
qed

section \<open>Seeding of the generator\<close>




section \<open>Validation of a creation request\<close>

text \<open>
  Claim C8, as the code has it. An empty long URL is rejected, and so is a length that is
  not a number or lies outside the range from one to twenty; the store is unchanged. The
  explicit short key is not checked for its form: every non-empty key that holds no
  value, or holds the decoded long URL, is accepted and written.
\<close>

theorem create_validation:
  "(form_longUrl f = [] \<longrightarrow>
      post_short rnd clock fl s f =
        Inr (\<lparr>Code = 0, Message = LongUrlEmpty, LongUrl = [], ShortUrl = []\<rparr>, s)) \<and>
   (form_longUrl f \<noteq> [] \<longrightarrow> parseShortUrlLen (form_shortUrlLen f) = Inl m \<longrightarrow>
      post_short rnd clock fl s f =
        Inr (\<lparr>Code = 0, Message = m, LongUrl = [], ShortUrl = []\<rparr>, s)) \<and>
   (str \<noteq> [] \<longrightarrow> Atoi str = None \<longrightarrow> parseShortUrlLen str = Inl ShortUrlLenNotNumber) \<and>
   (str \<noteq> [] \<longrightarrow> Atoi str = Some l \<longrightarrow> l < minShortUrlLen \<or> maxShortUrlLen < l \<longrightarrow>
      parseShortUrlLen str = Inl ShortUrlLenOutOfRange) \<and>
   (form_longUrl f \<noteq> [] \<longrightarrow> parseShortUrlLen (form_shortUrlLen f) = Inr n \<longrightarrow>
    form_shortKey f \<noteq> [] \<longrightarrow>
    redis_String (cmd_get s (form_shortKey f)) = [] \<or>
    redis_String (cmd_get s (form_shortKey f)) = fst (DecodeString (form_longUrl f)) \<longrightarrow>
      (\<exists>res s'. post_short rnd clock fl s f = Inr (res, s') \<and> Code res = 1 \<and>
                ShortUrl res = shortUrlOf fl (form_shortKey f) \<and>
                s' (form_shortKey f) = Some (fst (DecodeString (form_longUrl f)), None)))"
  by (auto simp: post_short_def parseShortUrlLen_def Let_def cmd_set_def)

theorem create_validation_witness:
  "post_short sample_rand sample_clock sample_flags Map.empty
     \<lparr>form_longUrl = [], form_shortKey = ''abc'', form_shortUrlLen = ''6''\<rparr>
     = Inr (\<lparr>Code = 0, Message = LongUrlEmpty, LongUrl = [], ShortUrl = []\<rparr>, Map.empty) \<and>
   post_short sample_rand sample_clock sample_flags Map.empty
     \<lparr>form_longUrl = ''aHR0cDovL3g='', form_shortKey = ''abc'', form_shortUrlLen = ''21''\<rparr>
     = Inr (\<lparr>Code = 0, Message = ShortUrlLenOutOfRange, LongUrl = [], ShortUrl = []\<rparr>, Map.empty) \<and>
   post_short sample_rand sample_clock sample_flags Map.empty
     \<lparr>form_longUrl = ''aHR0cDovL3g='', form_shortKey = ''abc'', form_shortUrlLen = ''six''\<rparr>
     = Inr (\<lparr>Code = 0, Message = ShortUrlLenNotNumber, LongUrl = [], ShortUrl = []\<rparr>, Map.empty) \<and>
   (\<exists>res s'. post_short sample_rand sample_clock sample_flags Map.empty
        \<lparr>form_longUrl = ''aHR0cDovL3g='', form_shortKey = ''a b/?#'', form_shortUrlLen = ''6''\<rparr>
        = Inr (res, s') \<and> Code res = 1 \<and> s' ''a b/?#'' = Some (''http://x'', None))"
proof -
  have d: "DecodeString ''aHR0cDovL3g='' = (''http://x'', False)"
    by code_simp
  have a: "Atoi ''21'' = Some 21" "Atoi ''six'' = None" "Atoi ''6'' = Some 6"
    by code_simp+
  have p: "parseShortUrlLen ''6'' = Inr 6"
    by (simp add: parseShortUrlLen_def a minShortUrlLen_def maxShortUrlLen_def)
  let ?f1 = "\<lparr>form_longUrl = [], form_shortKey = ''abc'', form_shortUrlLen = ''6''\<rparr>"
  let ?f2 = "\<lparr>form_longUrl = ''aHR0cDovL3g='', form_shortKey = ''abc'', form_shortUrlLen = ''21''\<rparr>"
  let ?f3 = "\<lparr>form_longUrl = ''aHR0cDovL3g='', form_shortKey = ''abc'', form_shortUrlLen = ''six''\<rparr>"
  let ?f4 = "\<lparr>form_longUrl = ''aHR0cDovL3g='', form_shortKey = ''a b/?#'', form_shortUrlLen = ''6''\<rparr>"
  have 1: "post_short sample_rand sample_clock sample_flags Map.empty ?f1
     = Inr (\<lparr>Code = 0, Message = LongUrlEmpty, LongUrl = [], ShortUrl = []\<rparr>, Map.empty)"
    using create_validation [where f = ?f1 and s = Map.empty and rnd = sample_rand and clock = sample_clock and fl = sample_flags] by simp
  have r2: "parseShortUrlLen ''21'' = Inl ShortUrlLenOutOfRange"
    using create_validation [where str = "''21''" and l = 21] a
    by (simp add: maxShortUrlLen_def)
  have 2: "post_short sample_rand sample_clock sample_flags Map.empty ?f2
     = Inr (\<lparr>Code = 0, Message = ShortUrlLenOutOfRange, LongUrl = [], ShortUrl = []\<rparr>, Map.empty)"
    using create_validation [where f = ?f2 and m = ShortUrlLenOutOfRange and s = Map.empty and rnd = sample_rand and clock = sample_clock and fl = sample_flags] r2 by simp
  have r3: "parseShortUrlLen ''six'' = Inl ShortUrlLenNotNumber"
    using create_validation [where str = "''six''"] a by simp
  have 3: "post_short sample_rand sample_clock sample_flags Map.empty ?f3
     = Inr (\<lparr>Code = 0, Message = ShortUrlLenNotNumber, LongUrl = [], ShortUrl = []\<rparr>, Map.empty)"
    using create_validation [where f = ?f3 and m = ShortUrlLenNotNumber and s = Map.empty and rnd = sample_rand and clock = sample_clock and fl = sample_flags] r3 by simp
  have 4: "\<exists>res s'. post_short sample_rand sample_clock sample_flags Map.empty ?f4
        = Inr (res, s') \<and> Code res = 1 \<and> s' ''a b/?#'' = Some (''http://x'', None)"
    using create_validation [where f = ?f4 and n = 6 and s = Map.empty and rnd = sample_rand
        and clock = sample_clock and fl = sample_flags] p d
    by (simp add: cmd_get_def redis_String_def) blast
  show ?thesis using 1 2 3 4 by blast
qed

text \<open>
  Claim C8 as stated fails: a request whose explicit short key has a blank, a slash, a
  question mark and a hash in it succeeds, and the key is written as it is.
\<close>

theorem malformed_key_counterexample:
  "post_short sample_rand sample_clock sample_flags Map.empty
     \<lparr>form_longUrl = ''aHR0cDovL3g='', form_shortKey = ''a b/?#'', form_shortUrlLen = []\<rparr>
   = Inr (\<lparr>Code = 1, Message = NoMessage, LongUrl = ''http://x'',
            ShortUrl = ''https://s.example/a b/?#''\<rparr>,
          [''a b/?#'' \<mapsto> (''http://x'', None)])"
proof -
  have d: "DecodeString ''aHR0cDovL3g='' = (''http://x'', False)"
    by code_simp
  show ?thesis
    by (simp add: post_short_def parseShortUrlLen_def d cmd_get_def redis_String_def cmd_set_def
        shortUrlOf_def sample_flags_def Let_def)
qed

section \<open>A long URL that does not decode\<close>



section \<open>An explicit key that is written again\<close>

text \<open>
  Claim C10. A request with an explicit short key that already holds the decoded long
  URL succeeds and sets the key again, without expiration, whatever expiration the key
  had; no other key changes. In particular, a key that a creation generated for the long
  URL, with a positive time to live, holds the same long URL without expiration after
  it is submitted as an explicit key.
\<close>

theorem explicit_rewrite_drops_expiration:
  assumes "form_longUrl f \<noteq> []"
    and "parseShortUrlLen (form_shortUrlLen f) = Inr n"
    and "fst (DecodeString (form_longUrl f)) = u"
    and "form_shortKey f = k"
  shows "(k \<noteq> [] \<longrightarrow> s k = Some (u, e) \<longrightarrow>
            (\<exists>res s'. post_short rnd clock fl s f = Inr (res, s') \<and> Code res = 1 \<and>
                      s' k = Some (u, None) \<and> (\<forall>x. x \<noteq> k \<longrightarrow> s' x = s x))) \<and>
         (redis_String (cmd_get s0 (md5Key u)) = [] \<longrightarrow> 1 \<le> m \<longrightarrow> 0 < ttl \<longrightarrow>
          longToShort rnd0 clock0 s0 u ttl m = Inr (k, s1) \<longrightarrow>
            s1 k = Some (u, Some ttl) \<and>
            (\<exists>res s2. post_short rnd clock fl s1 f = Inr (res, s2) \<and> Code res = 1 \<and>
                      s2 k = Some (u, None)))"
proof (intro conjI impI)
  assume "k \<noteq> []" "s k = Some (u, e)"
  then show "\<exists>res s'. post_short rnd clock fl s f = Inr (res, s') \<and> Code res = 1 \<and>
                      s' k = Some (u, None) \<and> (\<forall>x. x \<noteq> k \<longrightarrow> s' x = s x)"
    using assms by (simp add: post_short_def Let_def cmd_set_def cmd_get_def redis_String_def)
next
  assume miss: "redis_String (cmd_get s0 (md5Key u)) = []" and m: "1 \<le> m" and ttl: "0 < ttl"
    and c: "longToShort rnd0 clock0 s0 u ttl m = Inr (k, s1)"
  obtain k' where r: "retry rnd0 clock0 s0 m 0 [] = Inr k'" and len: "length k' = nat m"
    and letters: "set k' \<subseteq> set letterBytes"
    using retry_result [of m] m by fastforce
  have ne: "k' \<noteq> []" using len m by auto
  from longToShort_miss [OF miss r ne letters_not_md5Key [OF letters] ttl] c
  have k: "k' = k" and s1: "s1 k = Some (u, Some ttl)" by auto
  show "s1 k = Some (u, Some ttl)" by (rule s1)
  show "\<exists>res s2. post_short rnd clock fl s1 f = Inr (res, s2) \<and> Code res = 1 \<and>
                      s2 k = Some (u, None)"
    using assms s1 ne k
    by (simp add: post_short_def Let_def cmd_set_def cmd_get_def redis_String_def)
qed

theorem explicit_rewrite_drops_expiration_witness:
  "snd (run sample_rand sample_clock 0 Map.empty [Create ''http://x'' 1000 6]) ''8fmtAH''
     = Some (''http://x'', Some 1000) \<and>
   (\<exists>res s2. post_short sample_rand sample_clock sample_flags
        (snd (run sample_rand sample_clock 0 Map.empty [Create ''http://x'' 1000 6]))
        \<lparr>form_longUrl = ''aHR0cDovL3g='', form_shortKey = ''8fmtAH'', form_shortUrlLen = []\<rparr>
        = Inr (res, s2) \<and> Code res = 1 \<and> s2 ''8fmtAH'' = Some (''http://x'', None))"
proof -
  let ?u = "''http://x''"
  let ?k = "''8fmtAH''"
  let ?f = "\<lparr>form_longUrl = ''aHR0cDovL3g='', form_shortKey = ?k, form_shortUrlLen = []\<rparr>"
  have d: "DecodeString ''aHR0cDovL3g='' = (?u, False)"
    by code_simp
  have p: "parseShortUrlLen [] = Inr 6"
    by (simp add: parseShortUrlLen_def defaultShortUrlLen_def)
  obtain s1 where c: "longToShort sample_rand sample_clock Map.empty ?u 1000 6 = Inr (?k, s1)"
    using sample_create [of ?u 1000] by blast
  then have run: "snd (run sample_rand sample_clock 0 Map.empty [Create ?u 1000 6]) = s1"
    by simp
  have miss: "redis_String (cmd_get Map.empty (md5Key ?u)) = []"
    by (simp add: cmd_get_def redis_String_def)
  from explicit_rewrite_drops_expiration [where f = ?f and n = 6 and u = ?u and k = ?k
      and ?s0.0 = Map.empty and m = 6 and ttl = 1000 and ?rnd0.0 = sample_rand
      and ?clock0.0 = sample_clock and ?s1.0 = s1 and rnd = sample_rand and clock = sample_clock
      and fl = sample_flags] p d c miss
  show ?thesis
    unfolding run by simp
qed

end
